theory Spec2Isabelle
  imports Complex_Main "HOL-Library.Log_Nat"
begin

section \<open>Python values used by \<^verbatim>\<open>alert.py\<close>\<close>

subsection \<open>Floats\<close>

text \<open>
  A Python \<^verbatim>\<open>float\<close> is an IEEE 754 binary64 number. The model keeps the three special
  values and the exact rational value of a finite one. The two zeros compare equal in
  Python and are one value here (\<open>Finite 0\<close>).
\<close>

datatype pyfloat = NaN | NegInf | Finite rat | PosInf

text \<open>Python's \<^verbatim>\<open><=\<close> on floats: every comparison with a NaN is false.\<close>

fun fle :: "pyfloat \<Rightarrow> pyfloat \<Rightarrow> bool" where
  "fle NaN _ = False"
| "fle _ NaN = False"
| "fle NegInf _ = True"
| "fle _ PosInf = True"
| "fle (Finite a) (Finite b) = (a \<le> b)"
| "fle (Finite _) NegInf = False"
| "fle PosInf (Finite _) = False"
| "fle PosInf NegInf = False"

text \<open>Python's \<^verbatim>\<open>>=\<close> and \<^verbatim>\<open><\<close>.\<close>

definition fge :: "pyfloat \<Rightarrow> pyfloat \<Rightarrow> bool" where
  "fge a b = fle b a"

fun flt :: "pyfloat \<Rightarrow> pyfloat \<Rightarrow> bool" where
  "flt NaN _ = False"
| "flt _ NaN = False"
| "flt (Finite a) (Finite b) = (a < b)"
| "flt NegInf NegInf = False"
| "flt NegInf _ = True"
| "flt PosInf _ = False"
| "flt (Finite _) PosInf = True"
| "flt (Finite _) NegInf = False"

text \<open>
  Rounding of an exact rational result to binary64, to nearest with ties to the even
  significand. A finite double is \<open>m * 2 ^ e\<close> with \<open>m < 2 ^ 53\<close> and
  \<open>- 1074 \<le> e \<le> 971\<close>; a result that rounds to \<open>2 ^ 1024\<close> or more is an infinity.
\<close>

definition ilog2 :: "rat \<Rightarrow> int" where
  \<comment> \<open>\<open>\<lfloor>log\<^sub>2 x\<rfloor>\<close> for \<open>0 < x\<close>\<close>
  "ilog2 x = (if 1 \<le> x then bitlen \<lfloor>x\<rfloor> - 1 else - bitlen (\<lceil>1 / x\<rceil> - 1))"

definition round_half_even :: "rat \<Rightarrow> int" where
  "round_half_even x =
     (let f = \<lfloor>x\<rfloor>; d = x - of_int f
      in if d < 1 / 2 then f
         else if 1 / 2 < d then f + 1
         else if even f then f else f + 1)"

definition round_double :: "rat \<Rightarrow> pyfloat" where
  "round_double x =
     (if x = 0 then Finite 0
      else
        let a = \<bar>x\<bar>;
            e = max (ilog2 a - 52) (- 1074);
            m = round_half_even (a / power_int 2 e);
            r = of_int m * power_int 2 e
        in if 2 ^ 1024 \<le> r then (if x < 0 then NegInf else PosInf)
           else Finite (if x < 0 then - r else r))"

text \<open>Python's \<^verbatim>\<open>+\<close> on floats.\<close>

fun fadd :: "pyfloat \<Rightarrow> pyfloat \<Rightarrow> pyfloat" where
  "fadd NaN _ = NaN"
| "fadd _ NaN = NaN"
| "fadd PosInf NegInf = NaN"
| "fadd NegInf PosInf = NaN"
| "fadd PosInf _ = PosInf"
| "fadd _ PosInf = PosInf"
| "fadd NegInf _ = NegInf"
| "fadd _ NegInf = NegInf"
| "fadd (Finite a) (Finite b) = round_double (a + b)"

subsection \<open>Strings\<close>

text \<open>
  A Python \<^verbatim>\<open>str\<close> is a sequence of Unicode code points; indexing, slicing and
  \<^verbatim>\<open>startswith\<close> count code points. The label the page is searched for is Cyrillic,
  so a string is a list of code points here, not of bytes.
\<close>

type_synonym pystr = "nat list"

definition ascii :: "string \<Rightarrow> pystr" where
  "ascii s = map of_char s"

text \<open>
  The whitespace that \<^verbatim>\<open>int()\<close> and \<^verbatim>\<open>float()\<close> strip from both ends of a
  \<^verbatim>\<open>str\<close>: the ASCII whitespace and the Unicode spaces beyond ASCII.
\<close>

definition is_space :: "nat \<Rightarrow> bool" where
  "is_space c =
     ((9 \<le> c \<and> c \<le> 13) \<or> c = 32 \<or> c = 133 \<or> c = 160 \<or> c = 5760 \<or>
      (8192 \<le> c \<and> c \<le> 8202) \<or> c = 8232 \<or> c = 8233 \<or> c = 8239 \<or> c = 8287 \<or>
      c = 12288)"

definition strip :: "pystr \<Rightarrow> pystr" where
  "strip s = rev (dropWhile is_space (rev (dropWhile is_space s)))"

text \<open>
  Decimal digits. \<^verbatim>\<open>int()\<close> and \<^verbatim>\<open>float()\<close> read the decimal digits of every
  script: the characters of Unicode's category Nd, which come in runs of ten, zero to
  nine. The table lists the zero of each run, as the character database of Python 3.11
  (Unicode 14.0) has them: the ASCII digits first, then the Arabic-Indic ones, and so on
  to the digits of U+1FBF0.
\<close>

definition decimal_zeros :: "nat list" where
  "decimal_zeros =
     [48, 1632, 1776, 1984, 2406, 2534, 2662, 2790, 2918, 3046, 3174, 3302, 3430, 3558,
      3664, 3792, 3872, 4160, 4240, 6112, 6160, 6470, 6608, 6784, 6800, 6992, 7088, 7232,
      7248, 42528, 43216, 43264, 43472, 43504, 43600, 44016, 65296, 66720, 68912, 69734,
      69872, 69942, 70096, 70384, 70736, 70864, 71248, 71360, 71472, 71904, 72016, 72784,
      73040, 73120, 92768, 92864, 93008, 120782, 120792, 120802, 120812, 120822, 123200,
      123632, 125264, 130032]"

text \<open>The value of a decimal digit; \<open>None\<close> for any other character.\<close>

definition decimal_value :: "nat \<Rightarrow> nat option" where
  "decimal_value c =
     (case find (\<lambda>z. z \<le> c \<and> c < z + 10) decimal_zeros of
        None \<Rightarrow> None
      | Some z \<Rightarrow> Some (c - z))"

text \<open>
  \<^verbatim>\<open>digitpart ::= digit (["_"] digit)*\<close>: the digits read, most significant first,
  and the rest of the string. A single underscore is allowed between two digits only.
\<close>

fun digitpart :: "pystr \<Rightarrow> nat list \<times> pystr" where
  "digitpart [] = ([], [])"
| "digitpart [c] = (case decimal_value c of None \<Rightarrow> ([], [c]) | Some v \<Rightarrow> ([v], []))"
| "digitpart (c # d # cs) =
     (case decimal_value c of
        None \<Rightarrow> ([], c # d # cs)
      | Some v \<Rightarrow>
          (if d = 95 \<and> (case cs of [] \<Rightarrow> False | x # _ \<Rightarrow> decimal_value x \<noteq> None)
           then (let (ds, r) = digitpart cs in (v # ds, r))
           else (let (ds, r) = digitpart (d # cs) in (v # ds, r))))"

definition digits_value :: "nat list \<Rightarrow> nat" where
  "digits_value ds = foldl (\<lambda>a d. 10 * a + d) 0 ds"

text \<open>An optional sign: whether it was \<^verbatim>\<open>-\<close>, and the rest.\<close>

fun sign_part :: "pystr \<Rightarrow> bool \<times> pystr" where
  "sign_part [] = (False, [])"
| "sign_part (c # cs) =
     (if c = 45 then (True, cs) else if c = 43 then (False, cs) else (False, c # cs))"

text \<open>
  \<^verbatim>\<open>int(s)\<close> for a \<^verbatim>\<open>str\<close> in base 10: \<open>None\<close> is \<^verbatim>\<open>ValueError\<close>. A numeral of
  more than 4300 digits, leading zeros counted and underscores not, is refused: that is
  the interpreter's limit on the conversion (\<^verbatim>\<open>sys.get_int_max_str_digits()\<close>, which the
  program leaves at its default). \<^verbatim>\<open>float()\<close> has no such limit.
\<close>

definition py_int :: "pystr \<Rightarrow> int option" where
  "py_int s =
     (let (neg, u) = sign_part (strip s);
          (ds, r) = digitpart u
      in if ds = [] \<or> r \<noteq> [] \<or> 4300 < length ds then None
         else Some (if neg then - int (digits_value ds) else int (digits_value ds)))"

text \<open>
  \<^verbatim>\<open>float(s)\<close> for a \<^verbatim>\<open>str\<close>:
  \<^verbatim>\<open>
  floatvalue  ::= [sign] (floatnumber | "inf" | "infinity" | "nan")
  floatnumber ::= ([digitpart] "." digitpart | digitpart ["."]) [exponent]
  exponent    ::= ("e" | "E") [sign] digitpart
  \<close>
  with the words in any letter case. The decimal value is rounded to the nearest double;
  \<open>None\<close> is \<^verbatim>\<open>ValueError\<close>.
\<close>

definition lower :: "nat \<Rightarrow> nat" where
  "lower c = (if 65 \<le> c \<and> c \<le> 90 then c + 32 else c)"

definition exponent_part :: "pystr \<Rightarrow> int option" where
  "exponent_part s =
     (case s of
        [] \<Rightarrow> Some 0
      | c # cs \<Rightarrow>
          if c = 101 \<or> c = 69 then
            (let (neg, u) = sign_part cs;
                 (ds, r) = digitpart u
             in if ds = [] \<or> r \<noteq> [] then None
                else Some (if neg then - int (digits_value ds) else int (digits_value ds)))
          else None)"

definition floatnumber :: "pystr \<Rightarrow> rat option" where
  "floatnumber s =
     (let (ip, r1) = digitpart s;
          (fp, r2) = (case r1 of
                        [] \<Rightarrow> ([], [])
                      | c # cs \<Rightarrow> if c = 46 then digitpart cs else ([], r1))
      in if ip = [] \<and> fp = [] then None
         else (case exponent_part r2 of
                 None \<Rightarrow> None
               | Some ex \<Rightarrow>
                   Some (of_nat (digits_value (ip @ fp)) * power_int 10 (ex - int (length fp)))))"

definition py_float :: "pystr \<Rightarrow> pyfloat option" where
  "py_float s =
     (let (neg, u) = sign_part (strip s);
          l = map lower u
      in if l = ascii ''inf'' \<or> l = ascii ''infinity'' then Some (if neg then NegInf else PosInf)
         else if l = ascii ''nan'' then Some NaN
         else (case floatnumber u of
                 None \<Rightarrow> None
               | Some q \<Rightarrow> Some (round_double (if neg then - q else q))))"

section \<open>The application object\<close>

text \<open>
  The fields of \<^verbatim>\<open>VoltageCheckerApp\<close> that the monitoring code reads and writes,
  the number of live threads running \<^verbatim>\<open>monitor_voltage\<close>, and the values emitted on
  \<^verbatim>\<open>alert_signal\<close> so far. \<^verbatim>\<open>__init__\<close> takes \<^verbatim>\<open>url\<close>, \<^verbatim>\<open>interval\<close> and
  \<^verbatim>\<open>threshold\<close> from \<^verbatim>\<open>config.get(...)\<close>, which is \<^verbatim>\<open>None\<close> for a missing key;
  a number found there is taken with the type the later updates give the field
  (\<^verbatim>\<open>int\<close> for the interval, \<^verbatim>\<open>float\<close> for the threshold).
  The mutex only serialises the accesses of the two threads; each operation below is one
  atomic step.
\<close>

record app =
  monitoring :: bool
  alerted :: bool
  url :: "pystr option"
  interval :: "int option"
  threshold :: "pyfloat option"
  start_button :: bool
  stop_button :: bool
  workers :: nat
  emitted :: "pyfloat list"

definition init :: "pystr option \<Rightarrow> int option \<Rightarrow> pyfloat option \<Rightarrow> app" where
  "init u i t =
     \<lparr>monitoring = False, alerted = False, url = u, interval = i, threshold = t,
      start_button = True, stop_button = False, workers = 0, emitted = []\<rparr>"

text \<open>The exceptions that can arise in the code modelled.\<close>

datatype exn = RequestException | StopIteration | ValueError | TypeError | OverflowError

subsection \<open>Configuration updates\<close>

text \<open>
  \<^verbatim>\<open>
  def update_interval(self, new_interval):
      try:
          self.mutex.lock()
          self.interval = int(new_interval)
      finally:
          self.mutex.unlock()
  \<close>
  and likewise \<^verbatim>\<open>update_url\<close> (no conversion) and \<^verbatim>\<open>update_threshold\<close>
  (\<^verbatim>\<open>float\<close>). The result is the exception that leaves the method, if any, and the object
  after the call.
\<close>

definition update_url :: "app \<Rightarrow> pystr \<Rightarrow> exn option \<times> app" where
  "update_url s new_url = (None, s\<lparr>url := Some new_url\<rparr>)"

definition update_interval :: "app \<Rightarrow> pystr \<Rightarrow> exn option \<times> app" where
  "update_interval s new_interval =
     (case py_int new_interval of
        None \<Rightarrow> (Some ValueError, s)
      | Some n \<Rightarrow> (None, s\<lparr>interval := Some n\<rparr>))"

definition update_threshold :: "app \<Rightarrow> pystr \<Rightarrow> exn option \<times> app" where
  "update_threshold s new_threshold =
     (case py_float new_threshold of
        None \<Rightarrow> (Some ValueError, s)
      | Some x \<Rightarrow> (None, s\<lparr>threshold := Some x\<rparr>))"

subsection \<open>Start and stop\<close>

text \<open>
  \<^verbatim>\<open>start_monitoring\<close> and \<^verbatim>\<open>stop_monitoring\<close>. The first component tells whether the
  information box was shown (the early \<^verbatim>\<open>return\<close>).
\<close>

definition start_monitoring :: "app \<Rightarrow> bool \<times> app" where
  "start_monitoring s =
     (if monitoring s then (True, s)
      else (False, s\<lparr>monitoring := True, start_button := False, stop_button := True,
                      workers := Suc (workers s)\<rparr>))"

definition stop_monitoring :: "app \<Rightarrow> bool \<times> app" where
  "stop_monitoring s =
     (if \<not> monitoring s then (True, s)
      else (False, s\<lparr>monitoring := False, start_button := True, stop_button := False\<rparr>))"

section \<open>One cycle of \<^verbatim>\<open>monitor_voltage\<close>\<close>

subsection \<open>Sleeping and fetching\<close>

text \<open>
  \<^verbatim>\<open>time.sleep(interval)\<close> raises \<^verbatim>\<open>TypeError\<close> for \<^verbatim>\<open>None\<close>,
  \<^verbatim>\<open>OverflowError\<close> for a length that does not fit 64 bits of nanoseconds and
  \<^verbatim>\<open>ValueError\<close> for a negative one; otherwise it returns after the delay (an
  operating system may refuse a delay of centuries; the model lets it pass).
\<close>

definition sleep :: "int option \<Rightarrow> exn option" where
  "sleep i =
     (case i of
        None \<Rightarrow> Some TypeError
      | Some n \<Rightarrow> if n < - 9223372036 \<or> 9223372036 < n then Some OverflowError
                  else if n < 0 then Some ValueError
                  else None)"

text \<open>
  What \<^verbatim>\<open>requests.get(url, timeout=5)\<close> and \<^verbatim>\<open>raise_for_status()\<close> do is the
  environment's choice: a \<^verbatim>\<open>Timeout\<close>, which the inner handler of line 153 takes;
  another exception (of \<^verbatim>\<open>requests\<close>: connection error, HTTP status, bad URL; or of
  the parser), which it does not; or a page. A page is given as BeautifulSoup reads it:
  its elements in document order, each with its tag name, its classes and its
  \<^verbatim>\<open>.text\<close>.
\<close>

record element =
  el_tag :: string
  el_classes :: "string list"
  el_text :: pystr

datatype fetch_result = FetchTimeout | FetchFailed | Page "element list"

subsection \<open>Extraction\<close>

text \<open>
  Lines 159 to 167:
  \<^verbatim>\<open>
  divs = soup.find_all("div", "text-md")
  if not divs:
      continue
  voltage = next(div for div in divs if div.text.startswith(LABEL))
  if not voltage:
      continue
  voltage = float(voltage.text[9:-1])
  \<close>
  where \<^verbatim>\<open>LABEL\<close> stands for the string literal of line 163: seven Cyrillic letters,
  U+041D U+0430 U+043F U+0440 U+0443 U+0433 U+0430, and a colon.
\<close>

definition label :: pystr where
  \<comment> \<open>the eight code points of the label, Cyrillic letters and a colon\<close>
  "label = [1053, 1072, 1087, 1088, 1091, 1075, 1072, 58]"

definition find_all_div_text_md :: "element list \<Rightarrow> element list" where
  "find_all_div_text_md doc =
     filter (\<lambda>e. el_tag e = ''div'' \<and> ''text-md'' \<in> set (el_classes e)) doc"

definition startswith :: "pystr \<Rightarrow> pystr \<Rightarrow> bool" where
  "startswith s p = (take (length p) s = p)"

text \<open>\<^verbatim>\<open>next(...)\<close> without a default: \<open>None\<close> is \<^verbatim>\<open>StopIteration\<close>.\<close>

definition next_voltage :: "element list \<Rightarrow> element option" where
  "next_voltage divs = find (\<lambda>d. startswith (el_text d) label) divs"

text \<open>The truth value of a BeautifulSoup tag: its \<^verbatim>\<open>__bool__\<close> returns \<^verbatim>\<open>True\<close>.\<close>

definition tag_bool :: "element \<Rightarrow> bool" where
  "tag_bool e = True"

text \<open>The slice \<^verbatim>\<open>s[9:-1]\<close>.\<close>

definition slice_9_minus_1 :: "pystr \<Rightarrow> pystr" where
  "slice_9_minus_1 s = take (length s - 1 - 9) (drop 9 s)"

datatype extraction = Reading pyfloat | NoDivs | NoVoltage | Raises exn

definition extract_voltage :: "element list \<Rightarrow> extraction" where
  "extract_voltage doc =
     (let divs = find_all_div_text_md doc
      in if divs = [] then NoDivs
         else (case next_voltage divs of
                 None \<Rightarrow> Raises StopIteration
               | Some voltage \<Rightarrow>
                   if \<not> tag_bool voltage then NoVoltage
                   else (case py_float (slice_9_minus_1 (el_text voltage)) of
                           None \<Rightarrow> Raises ValueError
                         | Some v \<Rightarrow> Reading v)))"

subsection \<open>The hysteresis update\<close>

text \<open>
  Lines 169 to 174 of \<^verbatim>\<open>monitor_voltage\<close>:
  \<^verbatim>\<open>
  if voltage >= threshold + 0.5:
      self.alerted = False
  if voltage <= threshold and not self.alerted:
      self.alerted = True
      self.alert_signal.emit(voltage)
  \<close>
  The latch \<^verbatim>\<open>self.alerted\<close> is the alert state: \<open>False\<close> is Armed, \<open>True\<close> is
  Alerted. The arguments are the threshold read at the top of the cycle, the latch and
  the reading; the result is the new latch and the values emitted on \<^verbatim>\<open>alert_signal\<close>.
  The signal is emitted from the worker thread to a slot of the user-interface thread:
  \<^verbatim>\<open>emit\<close> queues the value and returns, so it is taken not to raise.
\<close>

definition hysteresis :: "pyfloat \<Rightarrow> bool \<Rightarrow> pyfloat \<Rightarrow> bool \<times> pyfloat list" where
  "hysteresis thr latch voltage =
     (let latch1 = (if fge voltage (fadd thr (Finite (1 / 2))) then False else latch)
      in if fle voltage thr \<and> \<not> latch1 then (True, [voltage])
         else (latch1, []))"

subsection \<open>The loop body\<close>

text \<open>
  One pass through the body of \<^verbatim>\<open>while self.monitoring\<close>, lines 141 to 177: the
  configuration is read, the thread sleeps, the page is fetched, the reading extracted
  and the hysteresis update applied. How the pass ended: at the end of the body
  (\<open>Evaluated\<close>), at one of the three \<^verbatim>\<open>continue\<close> statements, or in the handler
  \<^verbatim>\<open>except Exception\<close> of line 176, which prints the exception and goes on with the loop.
\<close>

datatype outcome =
  Evaluated | ContinueTimeout | ContinueNoDivs | ContinueNoVoltage | Caught exn

definition tick :: "app \<Rightarrow> fetch_result \<Rightarrow> outcome \<times> app" where
  "tick s r =
     (case sleep (interval s) of
        Some e \<Rightarrow> (Caught e, s)
      | None \<Rightarrow>
          (case r of
             FetchTimeout \<Rightarrow> (ContinueTimeout, s)
           | FetchFailed \<Rightarrow> (Caught RequestException, s)
           | Page doc \<Rightarrow>
               (case extract_voltage doc of
                  NoDivs \<Rightarrow> (ContinueNoDivs, s)
                | NoVoltage \<Rightarrow> (ContinueNoVoltage, s)
                | Raises e \<Rightarrow> (Caught e, s)
                | Reading voltage \<Rightarrow>
                    (case threshold s of
                       None \<Rightarrow> (Caught TypeError, s)
                     | Some t \<Rightarrow>
                         (let (a, ev) = hysteresis t (alerted s) voltage
                          in (Evaluated, s\<lparr>alerted := a, emitted := emitted s @ ev\<rparr>))))))"

section \<open>The running program\<close>

text \<open>
  The user interface thread and the worker threads interleave. A worker's step is one
  test of \<^verbatim>\<open>while self.monitoring\<close>: the loop body if the flag is set, the end of the
  thread otherwise (line 179 enables the start button).
\<close>

datatype action =
  Start | Stop | SetUrl pystr | SetInterval pystr | SetThreshold pystr | Worker fetch_result

definition monitor_voltage_step :: "app \<Rightarrow> fetch_result \<Rightarrow> app" where
  "monitor_voltage_step s r =
     (if monitoring s then snd (tick s r)
      else s\<lparr>start_button := True, workers := workers s - 1\<rparr>)"

fun step :: "app \<Rightarrow> action \<Rightarrow> app" where
  "step s Start = snd (start_monitoring s)"
| "step s Stop = snd (stop_monitoring s)"
| "step s (SetUrl x) = snd (update_url s x)"
| "step s (SetInterval x) = snd (update_interval s x)"
| "step s (SetThreshold x) = snd (update_threshold s x)"
| "step s (Worker r) = (if workers s = 0 then s else monitor_voltage_step s r)"

definition run :: "app \<Rightarrow> action list \<Rightarrow> app" where
  "run s as = foldl step s as"

section \<open>The extraction as the specification words it\<close>

text \<open>
  The specification's Reader/Extractor: among the elements with the style class, the first
  whose text begins with the label prefix; "strip the label prefix and a trailing unit
  character, then parse the remainder as a floating-point number". This definition follows
  those words, for comparison with \<open>extract_voltage\<close>, which follows the code.
\<close>

definition extract_voltage_spec :: "element list \<Rightarrow> extraction" where
  "extract_voltage_spec doc =
     (let divs = find_all_div_text_md doc
      in if divs = [] then NoDivs
         else (case next_voltage divs of
                 None \<Rightarrow> Raises StopIteration
               | Some voltage \<Rightarrow>
                   (case py_float (butlast (drop (length label) (el_text voltage))) of
                      None \<Rightarrow> Raises ValueError
                    | Some v \<Rightarrow> Reading v)))"

section \<open>Properties\<close>

subsection \<open>Rounding to a double\<close>

text \<open>
  \<open>ilog2\<close> is the binary exponent of a positive rational. With it, a number that is a
  53-bit significand times a power of two in range rounds to itself, and a number between
  two doubles rounds to the nearer one.
\<close>

lemma bitlen_unique:
  fixes n :: int
  assumes "2 ^ k \<le> n" "n < 2 ^ Suc k"
  shows "bitlen n = int k + 1"
proof (rule antisym)
  show "bitlen n \<le> int k + 1"
    using assms(2) by (simp add: bitlen_le_iff_power nat_add_distrib)
  show "int k + 1 \<le> bitlen n"
    using assms(1) by (simp add: bitlen_ge_iff_power nat_add_distrib)
qed

lemma ilog2_ge1:
  assumes "1 \<le> x"
  shows "power_int 2 (ilog2 x) \<le> x \<and> x < power_int 2 (ilog2 x + 1)"
proof -
  let ?n = "\<lfloor>x\<rfloor>"
  have n1: "1 \<le> ?n" using assms by simp
  then have npos: "0 < ?n" by simp
  have b1: "1 \<le> bitlen ?n"
    using npos bitlen_eq_zero_iff[of ?n] bitlen_nonneg[of ?n] by linarith
  from bitlen_bounds[OF npos]
  have lo: "2 ^ nat (bitlen ?n - 1) \<le> ?n" and hi: "?n < 2 ^ nat (bitlen ?n)" by auto
  have "(of_int (2 ^ nat (bitlen ?n - 1)) :: rat) \<le> of_int ?n"
    using lo of_int_le_iff by blast
  also have "\<dots> \<le> x" by simp
  finally have L: "(2::rat) ^ nat (bitlen ?n - 1) \<le> x" by simp
  have "?n + 1 \<le> 2 ^ nat (bitlen ?n)" using hi by simp
  then have "(of_int (?n + 1) :: rat) \<le> of_int (2 ^ nat (bitlen ?n))"
    using of_int_le_iff by blast
  moreover have "x < of_int (?n + 1)" by linarith
  ultimately have U: "x < (2::rat) ^ nat (bitlen ?n)" by simp
  have il: "ilog2 x = bitlen ?n - 1" using assms by (simp add: ilog2_def)
  show ?thesis
    using L U b1 by (simp add: il power_int_def)
qed

lemma ilog2_lt1:
  assumes "0 < x" "x < 1"
  shows "power_int 2 (ilog2 x) \<le> x \<and> x < power_int 2 (ilog2 x + 1)"
proof -
  let ?y = "1 / x"
  let ?c = "\<lceil>?y\<rceil> - 1"
  have y1: "1 < ?y" using assms by simp
  have "2 \<le> \<lceil>?y\<rceil>" using y1 by linarith
  then have cpos: "0 < ?c" by simp
  have cy: "of_int ?c < ?y" by linarith
  have yc: "?y \<le> of_int (?c + 1)" by simp
  have b1: "1 \<le> bitlen ?c"
    using cpos bitlen_eq_zero_iff[of ?c] bitlen_nonneg[of ?c] by linarith
  from bitlen_bounds[OF cpos]
  have lo: "2 ^ nat (bitlen ?c - 1) \<le> ?c" and hi: "?c < 2 ^ nat (bitlen ?c)" by auto
  have "?c + 1 \<le> 2 ^ nat (bitlen ?c)" using hi by simp
  then have "(of_int (?c + 1) :: rat) \<le> of_int (2 ^ nat (bitlen ?c))"
    using of_int_le_iff by blast
  then have "?y \<le> of_int (2 ^ nat (bitlen ?c))" using yc by (rule order_trans[rotated])
  then have Y: "?y \<le> (2::rat) ^ nat (bitlen ?c)" by (simp only: of_int_power of_int_numeral)
  have "(of_int (2 ^ nat (bitlen ?c - 1)) :: rat) \<le> of_int ?c"
    using lo of_int_le_iff by blast
  then have "(of_int (2 ^ nat (bitlen ?c - 1)) :: rat) < ?y" using cy by (rule le_less_trans)
  then have Z: "(2::rat) ^ nat (bitlen ?c - 1) < ?y" by (simp only: of_int_power of_int_numeral)
  have il: "ilog2 x = - bitlen ?c" using assms by (simp add: ilog2_def)
  have L: "1 / (2::rat) ^ nat (bitlen ?c) \<le> x"
  proof -
    have "1 \<le> x * 2 ^ nat (bitlen ?c)"
      using Y assms(1) by (simp add: field_simps)
    then show ?thesis by (simp add: field_simps)
  qed
  have U: "x < 1 / (2::rat) ^ nat (bitlen ?c - 1)"
  proof -
    have "x * 2 ^ nat (bitlen ?c - 1) < 1"
      using Z assms(1) by (simp add: field_simps)
    then show ?thesis by (simp add: field_simps)
  qed
  have e1: "power_int (2::rat) (- bitlen ?c) = 1 / 2 ^ nat (bitlen ?c)"
    using b1 by (simp add: power_int_def field_simps)
  have e2: "power_int (2::rat) (- bitlen ?c + 1) = 1 / 2 ^ nat (bitlen ?c - 1)"
  proof (cases "bitlen ?c = 1")
    case True
    then show ?thesis by simp
  next
    case False
    with b1 have "- bitlen ?c + 1 < 0" by simp
    moreover have "nat (- (- bitlen ?c + 1)) = nat (bitlen ?c - 1)" by simp
    ultimately show ?thesis by (simp add: power_int_def field_simps)
  qed
  show ?thesis unfolding il e1 e2 using L U by blast
qed

lemma ilog2_bounds:
  assumes "0 < x"
  shows "power_int 2 (ilog2 x) \<le> x \<and> x < power_int 2 (ilog2 x + 1)"
  using assms ilog2_ge1[of x] ilog2_lt1[of x] by (cases "1 \<le> x") auto

lemma power_int_2_mono:
  fixes a b :: int
  shows "a \<le> b \<Longrightarrow> power_int (2::rat) a \<le> power_int 2 b"
  by (rule power_int_increasing) simp_all

lemma ilog2_unique:
  assumes "power_int 2 k \<le> x" "x < power_int 2 (k + 1)"
  shows "ilog2 x = k"
proof -
  have xpos: "0 < x"
  proof -
    have "(0::rat) < power_int 2 k" by simp
    with assms(1) show ?thesis by linarith
  qed
  from ilog2_bounds[OF xpos]
  have lo: "power_int 2 (ilog2 x) \<le> x" and hi: "x < power_int 2 (ilog2 x + 1)" by auto
  have "\<not> ilog2 x + 1 \<le> k"
  proof
    assume "ilog2 x + 1 \<le> k"
    then have "power_int (2::rat) (ilog2 x + 1) \<le> power_int 2 k" by (rule power_int_2_mono)
    with hi assms(1) show False by linarith
  qed
  moreover have "\<not> k + 1 \<le> ilog2 x"
  proof
    assume "k + 1 \<le> ilog2 x"
    then have "power_int (2::rat) (k + 1) \<le> power_int 2 (ilog2 x)" by (rule power_int_2_mono)
    with lo assms(2) show False by linarith
  qed
  ultimately show ?thesis by linarith
qed

lemma round_half_even_of_int: "round_half_even (of_int n) = n"
  by (simp add: round_half_even_def)

lemma round_half_even_error:
  "\<bar>of_int (round_half_even x) - x\<bar> \<le> 1 / 2"
proof -
  have "of_int \<lfloor>x\<rfloor> \<le> x" "x < of_int \<lfloor>x\<rfloor> + 1" by linarith+
  then show ?thesis
    by (auto simp: round_half_even_def Let_def abs_le_iff)
qed

lemma round_half_even_ge_floor: "\<lfloor>x\<rfloor> \<le> round_half_even x"
  by (simp add: round_half_even_def Let_def)

lemma round_half_even_near:
  assumes "\<bar>x - of_int m\<bar> < 1 / 2"
  shows "round_half_even x = m"
proof -
  from assms have lo: "of_int m - 1 / 2 < x" and hi: "x < of_int m + 1 / 2"
    by linarith+
  show ?thesis
  proof (cases "of_int m \<le> x")
    case True
    then have f: "\<lfloor>x\<rfloor> = m" using hi by (intro floor_unique) auto
    show ?thesis using hi by (simp add: round_half_even_def f)
  next
    case False
    then have f: "\<lfloor>x\<rfloor> = m - 1" using lo by (intro floor_unique) auto
    show ?thesis using lo False by (simp add: round_half_even_def f)
  qed
qed

lemma round_half_even_tie:
  assumes "x = of_int m + 1 / 2" "even m"
  shows "round_half_even x = m"
proof -
  have f: "\<lfloor>x\<rfloor> = m" unfolding assms(1) by (intro floor_unique) auto
  show ?thesis using assms(2) by (simp add: round_half_even_def f) (simp add: assms(1))
qed

lemma round_double_eval:
  assumes "power_int 2 k \<le> \<bar>x\<bar>" "\<bar>x\<bar> < power_int 2 (k + 1)"
  shows "round_double x =
    (let e = max (k - 52) (- 1074);
         r = of_int (round_half_even (\<bar>x\<bar> / power_int 2 e)) * power_int 2 e
     in if 2 ^ 1024 \<le> r then (if x < 0 then NegInf else PosInf)
        else Finite (if x < 0 then - r else r))"
proof -
  have "(0::rat) < power_int 2 k" by simp
  with assms(1) have "0 < \<bar>x\<bar>" by linarith
  then have "x \<noteq> 0" by simp
  moreover have il: "ilog2 \<bar>x\<bar> = k" using assms by (rule ilog2_unique)
  ultimately show ?thesis
    unfolding round_double_def Let_def il by (simp only: if_False)
qed

lemma round_double_exact:
  assumes x: "x = of_int m * power_int 2 e" and m: "\<bar>m\<bar> < 2 ^ 53"
    and e: "- 1074 \<le> e" "e \<le> 971"
  shows "round_double x = Finite x"
proof (cases "m = 0")
  case True
  then show ?thesis by (simp add: x round_double_def)
next
  case False
  define a where "a = \<bar>x\<bar>"
  define k where "k = ilog2 a"
  define e' where "e' = max (k - 52) (- 1074)"
  have P: "(0::rat) < power_int 2 e" by simp
  have a_eq: "a = of_int \<bar>m\<bar> * power_int 2 e"
    by (simp add: a_def x abs_mult)
  have apos: "0 < a" using False by (simp add: a_eq)
  have xne: "x \<noteq> 0" using apos by (simp add: a_def)
  from ilog2_bounds[OF apos]
  have lo: "power_int 2 k \<le> a" and hi: "a < power_int 2 (k + 1)" by (auto simp: k_def)
  have "(of_int \<bar>m\<bar> :: rat) < of_int (2 ^ 53)" using m of_int_less_iff by blast
  then have m53: "(of_int \<bar>m\<bar> :: rat) < 2 ^ 53" by simp
  have a_lt: "a < power_int 2 (e + 53)"
  proof -
    have "a < 2 ^ 53 * power_int 2 e"
      unfolding a_eq using m53 P by (rule mult_strict_right_mono)
    also have "\<dots> = power_int 2 (e + 53)"
      by (simp add: power_int_add)
    finally show ?thesis .
  qed
  have k_le: "k - 52 \<le> e"
  proof (rule ccontr)
    assume "\<not> k - 52 \<le> e"
    then have "e + 53 \<le> k" by simp
    then have "power_int (2::rat) (e + 53) \<le> power_int 2 k" by (rule power_int_2_mono)
    with a_lt lo show False by linarith
  qed
  then have e'_le: "e' \<le> e" using e by (simp add: e'_def)
  define n where "n = nat (e - e')"
  have e_split: "e = e' + int n" using e'_le by (simp add: n_def)
  have pe: "power_int (2::rat) e = power_int 2 e' * 2 ^ n"
    by (simp add: e_split power_int_add)
  have q: "a / power_int 2 e' = of_int (\<bar>m\<bar> * 2 ^ n)"
    by (simp add: a_eq pe)
  have rhe: "round_half_even (a / power_int 2 e') = \<bar>m\<bar> * 2 ^ n"
    unfolding q by (rule round_half_even_of_int)
  have r: "of_int (round_half_even (a / power_int 2 e')) * power_int 2 e' = a"
  proof -
    have "of_int (round_half_even (a / power_int 2 e')) * power_int 2 e' =
        (of_int (\<bar>m\<bar> * 2 ^ n) :: rat) * power_int 2 e'"
      by (simp only: rhe)
    also have "\<dots> = of_int \<bar>m\<bar> * (power_int 2 e' * 2 ^ n)" by simp
    also have "\<dots> = a" by (simp only: a_eq pe)
    finally show ?thesis .
  qed
  have "power_int (2::rat) (e + 53) \<le> power_int 2 1024"
    by (rule power_int_2_mono) (use e in simp)
  with a_lt have small: "a < 2 ^ 1024" by simp
  have "round_double x =
      (let e = max (k - 52) (- 1074);
           r = of_int (round_half_even (\<bar>x\<bar> / power_int 2 e)) * power_int 2 e
       in if 2 ^ 1024 \<le> r then (if x < 0 then NegInf else PosInf)
          else Finite (if x < 0 then - r else r))"
    using lo hi unfolding a_def by (rule round_double_eval)
  also have "\<dots> = Finite (if x < 0 then - a else a)"
    unfolding Let_def e'_def[symmetric] a_def[symmetric] r using small by simp
  also have "(if x < 0 then - a else a) = x" by (simp add: a_def)
  finally show ?thesis .
qed

lemma round_double_pos:
  assumes "power_int 2 k \<le> x" "x < power_int 2 (k + 1)"
    and "e = max (k - 52) (- 1074)"
    and "round_half_even (x / power_int 2 e) = m"
    and "y = of_int m * power_int 2 e" "y < 2 ^ 1024"
  shows "round_double x = Finite y"
proof -
  have "(0::rat) < power_int 2 k" by simp
  with assms(1) have xpos: "0 < x" by linarith
  then have ax: "\<bar>x\<bar> = x" by simp
  have A: "power_int 2 k \<le> \<bar>x\<bar>" "\<bar>x\<bar> < power_int 2 (k + 1)"
    using assms(1,2) ax by simp_all
  have "round_double x =
      (let e = max (k - 52) (- 1074);
           r = of_int (round_half_even (\<bar>x\<bar> / power_int 2 e)) * power_int 2 e
       in if 2 ^ 1024 \<le> r then (if x < 0 then NegInf else PosInf)
          else Finite (if x < 0 then - r else r))"
    using A by (rule round_double_eval)
  also have "\<dots> = Finite y"
    unfolding Let_def ax assms(3)[symmetric] assms(4) assms(5)[symmetric]
    using assms(6) xpos by simp
  finally show ?thesis .
qed

text \<open>
  Adding \<^verbatim>\<open>0.5\<close> to a finite threshold below \<open>2 ^ 52\<close> in magnitude gives a larger
  double: the doubles there are at most \<^verbatim>\<open>0.5\<close> apart. From \<open>2 ^ 52\<close> on the sum can
  round back to the threshold.
\<close>

lemma fadd_half_above:
  assumes lo: "- (2 ^ 52) \<le> t" and hi: "t < 2 ^ 52"
  shows "flt (Finite t) (fadd (Finite t) (Finite (1 / 2)))"
proof -
  define x where "x = t + 1 / 2"
  show ?thesis
  proof (cases "x = 0")
    case True
    then have "t < 0" by (simp add: x_def)
    with True show ?thesis by (simp add: x_def[symmetric] round_double_def)
  next
    case False
    define a where "a = \<bar>x\<bar>"
    define k where "k = ilog2 a"
    define e where "e = max (k - 52) (- 1074)"
    define P :: rat where "P = power_int 2 e"
    define m where "m = round_half_even (a / P)"
    define r where "r = of_int m * P"
    have apos: "0 < a" using False by (simp add: a_def)
    have Ppos: "0 < P" by (simp add: P_def)
    from ilog2_bounds[OF apos]
    have klo: "power_int 2 k \<le> a" and khi: "a < power_int 2 (k + 1)"
      by (auto simp: k_def)
    have rd: "round_double x =
        (if 2 ^ 1024 \<le> r then (if x < 0 then NegInf else PosInf)
         else Finite (if x < 0 then - r else r))"
      using False
      by (simp add: round_double_def Let_def a_def[symmetric] k_def[symmetric]
          e_def[symmetric] P_def[symmetric] m_def[symmetric] r_def[symmetric])
    have "\<bar>of_int m - a / P\<bar> \<le> 1 / 2"
      unfolding m_def by (rule round_half_even_error)
    then have "\<bar>of_int m - a / P\<bar> * P \<le> 1 / 2 * P"
      using Ppos by (intro mult_right_mono) auto
    moreover have "\<bar>of_int m - a / P\<bar> * P = \<bar>r - a\<bar>"
    proof -
      have "\<bar>of_int m - a / P\<bar> * P = \<bar>(of_int m - a / P) * P\<bar>"
        using Ppos by (simp add: abs_mult)
      also have "(of_int m - a / P) * P = r - a"
        using Ppos by (simp add: r_def algebra_simps)
      finally show ?thesis .
    qed
    ultimately have err: "\<bar>r - a\<bar> \<le> P / 2" by simp
    have small: "P \<le> 1 / 2" if "k \<le> 51"
    proof -
      from that have "e \<le> - 1" by (simp add: e_def)
      then have "power_int (2::rat) e \<le> power_int 2 (- 1)" by (rule power_int_2_mono)
      then show ?thesis by (simp add: P_def)
    qed
    show ?thesis
    proof (cases "0 < x")
      case True
      then have ax: "a = x" by (simp add: a_def)
      have "t < r"
      proof (cases "k \<le> 51")
        case True
        from small[OF True] err ax x_def show ?thesis by linarith
      next
        case False
        then have k52: "52 \<le> k" by simp
        then have e_eq: "e = k - 52" by (simp add: e_def)
        have P1: "1 \<le> P"
        proof -
          have "power_int (2::rat) 0 \<le> power_int 2 e"
            by (rule power_int_2_mono) (use k52 e_eq in simp)
          then show ?thesis by (simp add: P_def)
        qed
        have "power_int (2::rat) k = power_int 2 (52 + (k - 52))" by simp
        also have "\<dots> = power_int 2 52 * power_int 2 (k - 52)"
          by (rule power_int_add) simp
        finally have "power_int (2::rat) k = 2 ^ 52 * P" by (simp add: P_def e_eq)
        with klo have "2 ^ 52 * P \<le> a" by simp
        then have "2 ^ 52 \<le> a / P" using Ppos by (simp add: field_simps)
        then have "(of_int (2 ^ 52) :: rat) \<le> a / P" by simp
        then have "2 ^ 52 \<le> \<lfloor>a / P\<rfloor>" by (simp only: le_floor_iff)
        also have "\<dots> \<le> m" unfolding m_def by (rule round_half_even_ge_floor)
        finally have "(of_int (2 ^ 52) :: rat) \<le> of_int m" using of_int_le_iff by blast
        then have "(2::rat) ^ 52 \<le> of_int m" by simp
        then have "(2::rat) ^ 52 * 1 \<le> of_int m * P"
          using P1 by (intro mult_mono) auto
        then show ?thesis using hi by (simp add: r_def)
      qed
      then show ?thesis
        using True by (simp add: x_def[symmetric] rd)
    next
      case False
      with \<open>x \<noteq> 0\<close> have xneg: "x < 0" by simp
      then have ax: "a = - x" by (simp add: a_def)
      have a52: "a < 2 ^ 52" using lo by (simp add: ax x_def)
      have k51: "k \<le> 51"
      proof (rule ccontr)
        assume "\<not> k \<le> 51"
        then have "52 \<le> k" by simp
        then have "power_int (2::rat) 52 \<le> power_int 2 k" by (rule power_int_2_mono)
        with klo a52 show False by simp
      qed
      from small[OF k51] err have r_le: "r \<le> a + 1 / 4" by linarith
      with a52 have "r < 2 ^ 1024" by simp
      moreover have "t < - r" using r_le ax x_def by linarith
      ultimately show ?thesis
        using xneg by (simp add: x_def[symmetric] rd)
    qed
  qed
qed

subsection \<open>Values used below\<close>

text \<open>
  The digit table at the characters met below: the ASCII digits, the Arabic-Indic digits,
  and the characters below and between them, which are no digits.
\<close>

lemma decimal_value_ascii: "48 \<le> c \<Longrightarrow> c \<le> 57 \<Longrightarrow> decimal_value c = Some (c - 48)"
  by (simp add: decimal_value_def decimal_zeros_def)

lemma decimal_value_arabic_indic:
  "1632 \<le> c \<Longrightarrow> c \<le> 1641 \<Longrightarrow> decimal_value c = Some (c - 1632)"
  by (simp add: decimal_value_def decimal_zeros_def)

lemma decimal_value_below: "c < 48 \<Longrightarrow> decimal_value c = None"
  by (simp add: decimal_value_def decimal_zeros_def)

lemma decimal_value_between: "57 < c \<Longrightarrow> c < 1632 \<Longrightarrow> decimal_value c = None"
  by (simp add: decimal_value_def decimal_zeros_def)

lemmas parse_defs =
  py_float_def py_int_def ascii_def strip_def is_space_def lower_def floatnumber_def
  decimal_value_ascii decimal_value_arabic_indic decimal_value_below decimal_value_between
  exponent_part_def digits_value_def

text \<open>A numeral of \<open>n\<close> digits \<^verbatim>\<open>1\<close>: \<^verbatim>\<open>int()\<close> refuses it from 4301 digits on.\<close>

lemma digitpart_ones: "digitpart (replicate n 49) = (replicate n 1, [])"
proof (induction n)
  case 0
  then show ?case by simp
next
  case (Suc n)
  show ?case
  proof (cases n)
    case 0
    then show ?thesis by (simp add: decimal_value_ascii)
  next
    case (Suc m)
    with Suc.IH show ?thesis by (simp add: decimal_value_ascii)
  qed
qed

lemma py_int_too_long: "4300 < n \<Longrightarrow> py_int (replicate n 49) = None"
proof -
  assume n: "4300 < n"
  have "strip (replicate n 49) = replicate n 49"
    by (simp add: strip_def is_space_def)
  moreover have "sign_part (replicate n 49) = (False, replicate n 49)"
    using n by (cases n) simp_all
  ultimately show ?thesis
    using n by (simp add: py_int_def digitpart_ones)
qed

lemmas page_defs =
  extract_voltage_def find_all_div_text_md_def next_voltage_def
  startswith_def label_def tag_bool_def slice_9_minus_1_def

lemma round_double_30: "round_double 30 = Finite 30"
  by (rule round_double_exact[where m = 30 and e = 0]) simp_all

lemma round_double_199: "round_double 199 = Finite 199"
  by (rule round_double_exact[where m = 199 and e = 0]) simp_all

lemma round_double_205: "round_double 205 = Finite 205"
  by (rule round_double_exact[where m = 205 and e = 0]) simp_all

lemma round_double_199_5: "round_double (399 / 2) = Finite (399 / 2)"
  by (rule round_double_exact[where m = 399 and e = "- 1"]) simp_all

lemma round_double_230: "round_double 230 = Finite 230"
  by (rule round_double_exact[where m = 230 and e = 0]) simp_all

lemma round_double_200_5: "round_double (401 / 2) = Finite (401 / 2)"
  by (rule round_double_exact[where m = 401 and e = "- 1"]) simp_all

lemma round_double_230_5: "round_double (461 / 2) = Finite (461 / 2)"
  by (rule round_double_exact[where m = 461 and e = "- 1"]) simp_all

lemma round_double_2_53: "round_double 9007199254740992 = Finite 9007199254740992"
  by (rule round_double_exact[where m = 4503599627370496 and e = 1]) simp_all

lemma round_double_1e16: "round_double 10000000000000000 = Finite 10000000000000000"
  by (rule round_double_exact[where m = 152587890625 and e = 16]) simp_all

lemma round_double_2_53_half:
  "round_double (18014398509481985 / 2) = Finite 9007199254740992"
  by (rule round_double_pos[where k = 53 and e = 1 and m = 4503599627370496])
    (simp_all add: round_half_even_near)

lemma round_double_1e16_half:
  "round_double (20000000000000001 / 2) = Finite 10000000000000000"
  by (rule round_double_pos[where k = 53 and e = 1 and m = 5000000000000000])
    (simp_all add: round_half_even_near)

lemmas float_values =
  round_double_200_5 round_double_2_53_half round_double_1e16_half

lemma extract_199:
  "extract_voltage
     [\<lparr>el_tag = ''div'', el_classes = [''text-md''], el_text = label @ ascii '' 199.0V''\<rparr>] =
   Reading (Finite 199)"
  by (simp add: page_defs parse_defs round_double_199)

subsection \<open>The order of floats\<close>

lemma flt_not_fle: "flt a b \<Longrightarrow> \<not> fle b a"
  by (cases a; cases b) auto

lemma above_band_not_below:
  "flt t b \<Longrightarrow> fge v b \<Longrightarrow> \<not> fle v t"
  unfolding fge_def by (cases t; cases b; cases v) auto

lemma below_not_above_band:
  "flt t b \<Longrightarrow> fle v t \<Longrightarrow> \<not> fge v b"
  unfolding fge_def by (cases t; cases b; cases v) auto

text \<open>
  For a finite threshold below \<open>2 ^ 52\<close> in magnitude the two tests of the hysteresis
  update exclude each other.
\<close>

lemma recover_finite_threshold:
  assumes "- (2 ^ 52) \<le> q" "q < 2 ^ 52" "fge v (fadd (Finite q) (Finite (1 / 2)))"
  shows "hysteresis (Finite q) a v = (False, [])"
proof -
  have "flt (Finite q) (fadd (Finite q) (Finite (1 / 2)))"
    using assms(1,2) by (rule fadd_half_above)
  then have "\<not> fle v (Finite q)" using assms(3) by (rule above_band_not_below)
  with assms(3) show ?thesis by (simp add: hysteresis_def)
qed

lemma alerted_stays_finite_threshold:
  assumes "- (2 ^ 52) \<le> q" "q < 2 ^ 52" "fle v (Finite q)"
  shows "hysteresis (Finite q) True v = (True, [])"
proof -
  have "flt (Finite q) (fadd (Finite q) (Finite (1 / 2)))"
    using assms(1,2) by (rule fadd_half_above)
  then have "\<not> fge v (fadd (Finite q) (Finite (1 / 2)))"
    using assms(3) by (rule below_not_above_band)
  then show ?thesis by (simp add: hysteresis_def)
qed

subsection \<open>The loop body and the running program\<close>

lemma tick_unchanged: "fst (tick s r) \<noteq> Evaluated \<Longrightarrow> snd (tick s r) = s"
  by (auto simp: tick_def split: option.splits fetch_result.splits extraction.splits prod.splits)

lemma tick_frame:
  "monitoring (snd (tick s r)) = monitoring s \<and> workers (snd (tick s r)) = workers s"
  by (auto simp: tick_def split: option.splits fetch_result.splits extraction.splits prod.splits)

lemma tick_failures:
  "r = FetchTimeout \<or> r = FetchFailed \<or> sleep (interval s) \<noteq> None \<or> threshold s = None \<or>
   (\<exists>doc. r = Page doc \<and> (\<forall>v. extract_voltage doc \<noteq> Reading v))
   \<Longrightarrow> fst (tick s r) \<noteq> Evaluated"
  by (auto simp: tick_def split: option.splits fetch_result.splits extraction.splits prod.splits)

lemma step_keeps_running:
  assumes "a \<noteq> Stop" "monitoring s" "0 < workers s"
  shows "monitoring (step s a) \<and> 0 < workers (step s a)"
proof (cases a)
  case (Worker r)
  then show ?thesis
    using assms tick_frame[of s r] by (simp add: monitor_voltage_step_def)
qed (use assms in \<open>auto simp: start_monitoring_def update_url_def update_interval_def
      update_threshold_def split: option.splits\<close>)

lemma run_keeps_running:
  "Stop \<notin> set as \<Longrightarrow> monitoring s \<Longrightarrow> 0 < workers s \<Longrightarrow>
   monitoring (run s as) \<and> 0 < workers (run s as)"
proof (induction as arbitrary: s)
  case Nil
  then show ?case by (simp add: run_def)
next
  case (Cons a as)
  from Cons.prems have "a \<noteq> Stop" by auto
  with Cons.prems have "monitoring (step s a) \<and> 0 < workers (step s a)"
    by (intro step_keeps_running) auto
  with Cons.IH[of "step s a"] Cons.prems(1) show ?case by (simp add: run_def)
qed

lemma run_skip_failed:
  assumes "monitoring (run s as)" "fst (tick (run s as) f) \<noteq> Evaluated"
  shows "run s (as @ Worker f # bs) = run s (as @ bs)"
proof -
  have "step (run s as) (Worker f) = run s as"
    using assms tick_unchanged[of "run s as" f] by (simp add: monitor_voltage_step_def)
  then show ?thesis by (simp add: run_def)
qed

subsection \<open>Extraction\<close>

lemma find_first:
  "\<forall>e \<in> set pre. \<not> P e \<Longrightarrow> P d \<Longrightarrow> find P (pre @ d # post) = Some d"
  by (induction pre) auto

lemma slice_label_body:
  "slice_9_minus_1 (label @ c # body @ [u]) = body"
  by (simp add: slice_9_minus_1_def label_def)

lemma extract_voltage_no_label:
  assumes "find_all_div_text_md doc \<noteq> []"
    and "\<forall>d \<in> set (find_all_div_text_md doc). \<not> startswith (el_text d) label"
  shows "extract_voltage doc = Raises StopIteration"
proof -
  have "next_voltage (find_all_div_text_md doc) = None"
    using assms(2) by (simp add: next_voltage_def find_None_iff)
  with assms(1) show ?thesis by (simp add: extract_voltage_def)
qed

section \<open>The claims\<close>

text \<open>
  C1. For every reading with \<open>value <= threshold\<close> and the latch Armed (\<open>alerted = False\<close>),
  the hysteresis update sets the latch to Alerted and emits exactly one event, which
  carries that value.
\<close>

theorem fire_when_armed:
  "fle v t \<Longrightarrow> hysteresis t False v = (True, [v])"
  by (simp add: hysteresis_def)

theorem fire_when_armed_witness:
  "fle (Finite 199) (Finite 200) \<and>
   hysteresis (Finite 200) False (Finite 199) = (True, [Finite 199])"
  using fire_when_armed [of "Finite 199" "Finite 200"] by simp

text \<open>
  C2, as amended. For every reading with \<open>value >= threshold + 0.5\<close> that is not also
  \<open><= threshold\<close>, whatever the latch was, the update leaves the latch Armed and emits no
  event. The second condition is needed because the sum is a double: where
  \<open>threshold + 0.5\<close> rounds to \<open>threshold\<close>, a reading equal to the threshold passes both
  tests of lines 169 and 172, so the latch is cleared and set again at once and an event
  is emitted. For a finite threshold \<open>q\<close> with \<open>- 2 ^ 52 \<le> q < 2 ^ 52\<close> the second
  condition follows from the first, and the claim holds as it was stated.
\<close>

theorem recover_above_band:
  "(fge v (fadd t (Finite (1 / 2))) \<and> \<not> fle v t \<longrightarrow> hysteresis t a v = (False, [])) \<and>
   (- (2 ^ 52) \<le> q \<and> q < 2 ^ 52 \<and> fge v (fadd (Finite q) (Finite (1 / 2)))
      \<longrightarrow> hysteresis (Finite q) a v = (False, []))"
  using recover_finite_threshold [of q v a] by (simp add: hysteresis_def)

theorem recover_above_band_witness:
  "fge (Finite 205) (fadd (Finite 200) (Finite (1 / 2))) \<and>
   \<not> fle (Finite 205) (Finite 200) \<and>
   - (2 ^ 52) \<le> (200 :: rat) \<and> (200 :: rat) < 2 ^ 52 \<and>
   hysteresis (Finite 200) True (Finite 205) = (False, [])"
  using recover_above_band [of "Finite 205" "Finite 200" True 200]
  by (simp add: fge_def float_values)

text \<open>
  The claim as stated fails at threshold and reading \<^verbatim>\<open>9007199254740992.0\<close>
  (\<open>2 ^ 53\<close>) with the latch Alerted: the reading is \<open>>= threshold + 0.5\<close>, and the result is
  Alerted with one event.
\<close>

theorem recover_counterexample:
  "fge (Finite 9007199254740992) (fadd (Finite 9007199254740992) (Finite (1 / 2))) \<and>
   hysteresis (Finite 9007199254740992) True (Finite 9007199254740992) =
     (True, [Finite 9007199254740992])"
  by (simp add: hysteresis_def fge_def float_values)

text \<open>
  C3, as amended. For every reading with \<open>threshold < value < threshold + 0.5\<close> (the sum
  as the code computes it, a double), in either state, the update leaves the latch as it
  was and emits no event; and for every reading
  with \<open>value <= threshold\<close> that is not also \<open>>= threshold + 0.5\<close>, with the latch
  Alerted, the latch stays Alerted and no event is emitted. For a finite threshold \<open>q\<close>
  with \<open>- 2 ^ 52 \<le> q < 2 ^ 52\<close> no reading \<open><= threshold\<close> is \<open>>= threshold + 0.5\<close>, and
  the claim holds as it was stated.
\<close>

theorem unchanged_in_band:
  "(flt t v \<and> flt v (fadd t (Finite (1 / 2))) \<longrightarrow> hysteresis t a v = (a, [])) \<and>
   (fle v t \<and> \<not> fge v (fadd t (Finite (1 / 2))) \<longrightarrow> hysteresis t True v = (True, [])) \<and>
   (- (2 ^ 52) \<le> q \<and> q < 2 ^ 52 \<and> fle v (Finite q)
      \<longrightarrow> hysteresis (Finite q) True v = (True, []))"
  using alerted_stays_finite_threshold [of q v]
  by (auto simp: hysteresis_def fge_def dest: flt_not_fle)

theorem unchanged_in_band_witness:
  "flt (Finite 200) (Finite (801 / 4)) \<and>
   flt (Finite (801 / 4)) (fadd (Finite 200) (Finite (1 / 2))) \<and>
   hysteresis (Finite 200) False (Finite (801 / 4)) = (False, []) \<and>
   fle (Finite 199) (Finite 200) \<and>
   \<not> fge (Finite 199) (fadd (Finite 200) (Finite (1 / 2))) \<and>
   - (2 ^ 52) \<le> (200 :: rat) \<and> (200 :: rat) < 2 ^ 52 \<and>
   hysteresis (Finite 200) True (Finite 199) = (True, [])"
  using unchanged_in_band [of "Finite 200" "Finite (801 / 4)" False 200]
    unchanged_in_band [of "Finite 200" "Finite 199" True 200]
  by (simp add: fge_def float_values)

text \<open>
  The claim as stated fails at threshold and reading \<^verbatim>\<open>1e16\<close> with the latch Alerted:
  the reading is \<open><= threshold\<close>, the latch ends Alerted as it began, but an event is
  emitted.
\<close>

theorem unchanged_counterexample:
  "fle (Finite 10000000000000000) (Finite 10000000000000000) \<and>
   hysteresis (Finite 10000000000000000) True (Finite 10000000000000000) =
     (True, [Finite 10000000000000000])"
  by (simp add: hysteresis_def fge_def float_values)

text \<open>
  The inputs of the two counterexamples are doubles (\<open>round_double_2_53\<close>,
  \<open>round_double_1e16\<close>) and reach the program through its own parsers: with the
  threshold set to \<^verbatim>\<open>1e16\<close> by \<^verbatim>\<open>update_threshold\<close>, two pages in a row that read
  \<^verbatim>\<open>1e16\<close> emit two events.
\<close>

lemma absorbed_band_pages:
  "(let page = Worker (Page [\<lparr>el_tag = ''div'', el_classes = [''text-md''],
                               el_text = label @ ascii '' 1e16V''\<rparr>]);
        s0 = init None (Some 1) None
    in threshold (run s0 [SetThreshold (ascii ''1e16'')]) = Some (Finite 10000000000000000) \<and>
       emitted (run s0 [SetThreshold (ascii ''1e16''), Start, page, page]) =
         [Finite 10000000000000000, Finite 10000000000000000])"
  by (simp add: run_def start_monitoring_def init_def update_threshold_def
      monitor_voltage_step_def tick_def sleep_def page_defs parse_defs hysteresis_def fge_def
      float_values round_double_1e16 Let_def)

text \<open>
  C4. With threshold \<^verbatim>\<open>200.0\<close> and the latch Armed at first, the readings
  \<^verbatim>\<open>205.0\<close>, \<^verbatim>\<open>199.0\<close>, \<^verbatim>\<open>199.5\<close>, \<^verbatim>\<open>200.5\<close>, each fed to the hysteresis update with
  the latch the one before left, give the latches Armed, Alerted, Alerted, Armed, and
  exactly one event, at \<^verbatim>\<open>199.0\<close>.
\<close>

theorem scenario_200:
  "(let T = Finite 200;
        s1 = hysteresis T False (Finite 205);
        s2 = hysteresis T (fst s1) (Finite 199);
        s3 = hysteresis T (fst s2) (Finite (399 / 2));
        s4 = hysteresis T (fst s3) (Finite (401 / 2))
    in [fst s1, fst s2, fst s3, fst s4] = [False, True, True, False] \<and>
       [snd s1, snd s2, snd s3, snd s4] = [[], [Finite 199], [], []])"
  by (simp add: hysteresis_def fge_def float_values Let_def)

text \<open>
  The same scenario through the whole program: four pages whose \<^verbatim>\<open>text-md\<close> element
  reads the label, a space, the number and \<^verbatim>\<open>V\<close>, after \<^verbatim>\<open>start_monitoring\<close>.
\<close>

lemma scenario_200_pages:
  "(let page = (\<lambda>txt. Worker (Page [\<lparr>el_tag = ''div'', el_classes = [''text-md''],
                                         el_text = label @ ascii txt\<rparr>]));
        acts = [Start, page '' 205.0V'', page '' 199.0V'', page '' 199.5V'', page '' 200.5V''];
        s0 = init None (Some 1) (Some (Finite 200))
    in map (\<lambda>n. alerted (run s0 (take n acts))) [2, 3, 4, 5] = [False, True, True, False] \<and>
       emitted (run s0 acts) = [Finite 199])"
  by (simp add: run_def start_monitoring_def init_def monitor_voltage_step_def tick_def
      sleep_def page_defs parse_defs hysteresis_def fge_def float_values round_double_199
      round_double_205 round_double_199_5 Let_def)

text \<open>
  C5, as amended. \<^verbatim>\<open>stop_monitoring\<close> followed by \<^verbatim>\<open>start_monitoring\<close> leaves the latch
  as it was: neither method writes \<^verbatim>\<open>self.alerted\<close>. The latch is Armed when the object
  is constructed, so the first session begins Armed; a later session begins with the latch
  the session before left.
\<close>

theorem restart_keeps_latch:
  "alerted (snd (start_monitoring (snd (stop_monitoring s)))) = alerted s \<and>
   alerted (snd (start_monitoring (init u i t))) = False"
  by (simp add: start_monitoring_def stop_monitoring_def init_def)

text \<open>
  The claim as stated fails after one low reading: the latch is Alerted, monitoring is
  stopped and started again (both calls take effect), and the latch is still Alerted.
\<close>

theorem restart_counterexample:
  "(let s1 = run (init None (Some 1) (Some (Finite 200)))
       [Start,
        Worker (Page [\<lparr>el_tag = ''div'', el_classes = [''text-md''],
                        el_text = label @ ascii '' 199.0V''\<rparr>])]
    in alerted s1 \<and> monitoring s1 \<and>
       alerted (snd (start_monitoring (snd (stop_monitoring s1)))))"
  by (simp add: run_def start_monitoring_def stop_monitoring_def init_def
      monitor_voltage_step_def tick_def sleep_def extract_199 hysteresis_def fge_def
      float_values)

text \<open>
  C6. A cycle that does not reach the hysteresis update, because the sleep, the fetch or
  the extraction failed or raised, or the threshold is missing, leaves the whole object
  unchanged, the latch and the running flag included, and emits nothing. So a run with such
  a cycle in it ends in the same state as the run without it: the next reading meets the
  latch as it was before the failure. While no \<^verbatim>\<open>stop_monitoring\<close> occurs, the flag stays
  set and the worker stays in its loop.
\<close>

theorem tick_errors_not_fatal:
  "(fst (tick s f) \<noteq> Evaluated \<longrightarrow> snd (tick s f) = s) \<and>
   (f = FetchTimeout \<or> f = FetchFailed \<or> sleep (interval s) \<noteq> None \<or> threshold s = None \<or>
    (\<exists>doc. f = Page doc \<and> (\<forall>v. extract_voltage doc \<noteq> Reading v))
      \<longrightarrow> fst (tick s f) \<noteq> Evaluated) \<and>
   (monitoring (run s as) \<and> fst (tick (run s as) f) \<noteq> Evaluated
      \<longrightarrow> run s (as @ Worker f # bs) = run s (as @ bs)) \<and>
   (monitoring s \<and> 0 < workers s \<and> Stop \<notin> set as
      \<longrightarrow> monitoring (run s as) \<and> 0 < workers (run s as))"
  using tick_unchanged[of s f] tick_failures[of f s] run_skip_failed[of s as f bs]
    run_keeps_running[of as s]
  by blast

theorem tick_errors_not_fatal_witness:
  "(let s = snd (start_monitoring (init None (Some 1) (Some (Finite 200))));
        low = Page [\<lparr>el_tag = ''div'', el_classes = [''text-md''],
                      el_text = label @ ascii '' 199.0V''\<rparr>]
    in fst (tick (run s [Worker low]) FetchFailed) = Caught RequestException \<and>
       snd (tick (run s [Worker low]) FetchFailed) = run s [Worker low] \<and>
       monitoring (run s [Worker low]) \<and>
       run s ([Worker low] @ Worker FetchFailed # [Worker low]) =
         run s ([Worker low] @ [Worker low]) \<and>
       monitoring s \<and> 0 < workers s \<and> Stop \<notin> set [Worker low] \<and>
       0 < workers (run s [Worker low]))"
proof -
  define s where "s = snd (start_monitoring (init None (Some 1) (Some (Finite 200))))"
  define low where "low = Page [\<lparr>el_tag = ''div'', el_classes = [''text-md''],
                      el_text = label @ ascii '' 199.0V''\<rparr>]"
  have s: "monitoring s" "0 < workers s" "interval s = Some 1"
    by (simp_all add: s_def start_monitoring_def init_def)
  have r: "monitoring (run s [Worker low])" "interval (run s [Worker low]) = Some 1"
    using s by (simp_all add: run_def monitor_voltage_step_def tick_def sleep_def
        low_def extract_199 split: option.splits prod.splits)
  have f: "fst (tick (run s [Worker low]) FetchFailed) = Caught RequestException"
    using r by (simp add: tick_def sleep_def)
  show ?thesis
    unfolding Let_def s_def[symmetric] low_def[symmetric]
    using tick_errors_not_fatal[of "run s [Worker low]" FetchFailed "[Worker low]" "[Worker low]"]
      tick_errors_not_fatal[of s FetchFailed "[Worker low]" "[Worker low]"]
      s r f
    by simp
qed

text \<open>
  C7, as amended. \<^verbatim>\<open>update_interval\<close> raises \<^verbatim>\<open>ValueError\<close> (the code's form of
  InvalidConfig) for every input that \<^verbatim>\<open>int()\<close> rejects, that is, that does not parse as
  an integer; the stored interval, and the rest of the object, is then unchanged and the
  exception reaches the caller. An input that parses as an integer is stored, positive or
  not.
\<close>

theorem update_interval_invalid:
  "(py_int new = None \<longrightarrow> update_interval s new = (Some ValueError, s)) \<and>
   (py_int new = Some n \<longrightarrow> update_interval s new = (None, s\<lparr>interval := Some n\<rparr>))"
  by (simp add: update_interval_def)

text \<open>
  At four inputs: \<^verbatim>\<open>"abc"\<close> and a numeral of 4301 digits are rejected and the interval
  of 60 stays; the Arabic-Indic digit three (U+0663) and \<^verbatim>\<open>"15"\<close> are stored.
\<close>

theorem update_interval_invalid_witness:
  "py_int (ascii ''abc'') = None \<and>
   update_interval (init None (Some 60) None) (ascii ''abc'') =
     (Some ValueError, init None (Some 60) None) \<and>
   py_int (replicate 4301 49) = None \<and>
   update_interval (init None (Some 60) None) (replicate 4301 49) =
     (Some ValueError, init None (Some 60) None) \<and>
   py_int [1635] = Some 3 \<and>
   update_interval (init None (Some 60) None) [1635] =
     (None, (init None (Some 60) None)\<lparr>interval := Some 3\<rparr>) \<and>
   py_int (ascii ''15'') = Some 15 \<and>
   update_interval (init None (Some 60) None) (ascii ''15'') =
     (None, (init None (Some 60) None)\<lparr>interval := Some 15\<rparr>)"
proof -
  have a: "py_int (ascii ''abc'') = None" by (simp add: parse_defs)
  have b: "py_int (replicate 4301 49) = None" by (rule py_int_too_long) simp
  have c: "py_int [1635] = Some 3" by (simp add: parse_defs)
  have d: "py_int (ascii ''15'') = Some 15" by (simp add: parse_defs)
  from a b c d
    update_interval_invalid [of "ascii ''abc''" "init None (Some 60) None" 0]
    update_interval_invalid [of "replicate 4301 49" "init None (Some 60) None" 0]
    update_interval_invalid [of "[1635]" "init None (Some 60) None" 3]
    update_interval_invalid [of "ascii ''15''" "init None (Some 60) None" 15]
  show ?thesis by simp
qed

text \<open>
  The claim as stated fails at the input \<^verbatim>\<open>"-5"\<close>, which does not parse as a positive
  integer: no exception is raised and \<^verbatim>\<open>-5\<close> replaces the stored interval.
\<close>

theorem update_interval_counterexample:
  "py_int (ascii ''-5'') = Some (- 5) \<and>
   update_interval (init None (Some 60) None) (ascii ''-5'') =
     (None, (init None (Some 60) None)\<lparr>interval := Some (- 5)\<rparr>)"
  by (simp add: update_interval_def parse_defs)

text \<open>
  C8. \<^verbatim>\<open>update_threshold\<close> with the input \<^verbatim>\<open>"abc"\<close> raises \<^verbatim>\<open>ValueError\<close> (the code's
  form of InvalidConfig) and leaves the stored threshold, and the rest of the object,
  unchanged.
\<close>

theorem update_threshold_abc:
  "update_threshold s (ascii ''abc'') = (Some ValueError, s)"
  by (simp add: update_threshold_def parse_defs)

text \<open>
  C9, as amended. The extraction takes the first element of the document that is a
  \<^verbatim>\<open>div\<close>, has the class \<^verbatim>\<open>text-md\<close> and whose text begins with the label; it strips
  the label together with the one character after it (nine characters in all) and one
  trailing unit character, and parses the rest as a float, which is the reading.
\<close>

theorem extract_voltage_reading:
  assumes "doc = pre @ d # post"
    and "el_tag d = ''div''" and "''text-md'' \<in> set (el_classes d)"
    and "\<forall>e \<in> set pre. \<not> (el_tag e = ''div'' \<and> ''text-md'' \<in> set (el_classes e) \<and>
                           startswith (el_text e) label)"
    and "el_text d = label @ c # body @ [u]"
  shows "extract_voltage doc =
    (case py_float body of None \<Rightarrow> Raises ValueError | Some v \<Rightarrow> Reading v)"
proof -
  let ?P = "\<lambda>e. el_tag e = ''div'' \<and> ''text-md'' \<in> set (el_classes e)"
  have f: "find_all_div_text_md doc = filter ?P pre @ d # filter ?P post"
    using assms(1-3) by (simp add: find_all_div_text_md_def)
  have "\<forall>e \<in> set (filter ?P pre). \<not> startswith (el_text e) label"
    using assms(4) by auto
  moreover have "startswith (el_text d) label"
    by (simp add: assms(5) startswith_def)
  ultimately have "next_voltage (filter ?P pre @ d # filter ?P post) = Some d"
    unfolding next_voltage_def by (intro find_first) auto
  then show ?thesis
    by (simp add: extract_voltage_def f tag_bool_def assms(5) slice_label_body
        del: append_assoc)
qed

text \<open>
  A page with four elements that begin with the label or carry the class: a \<^verbatim>\<open>span\<close>
  with class and label, a \<^verbatim>\<open>div\<close> with the label and another class, a \<^verbatim>\<open>div\<close> with
  the class and another text, and the \<^verbatim>\<open>div\<close> that is read, \<^verbatim>\<open>230.5\<close>. On a second page
  the number is written in Arabic-Indic digits (U+0662 U+0663 U+0660) and read as
  \<^verbatim>\<open>230.0\<close>.
\<close>

theorem extract_voltage_reading_witness:
  "(let d0 = \<lparr>el_tag = ''span'', el_classes = [''text-md''],
               el_text = label @ ascii '' 111.0V''\<rparr>;
        d1 = \<lparr>el_tag = ''div'', el_classes = [''text-lg''],
               el_text = label @ ascii '' 222.0V''\<rparr>;
        d2 = \<lparr>el_tag = ''div'', el_classes = [''text-md''], el_text = ascii ''Power: 5W''\<rparr>;
        d3 = \<lparr>el_tag = ''div'', el_classes = [''bold'', ''text-md''],
               el_text = label @ 32 # ascii ''230.5'' @ [86]\<rparr>;
        d4 = \<lparr>el_tag = ''div'', el_classes = [''text-md''],
               el_text = label @ 32 # [1634, 1635, 1632] @ [86]\<rparr>
    in el_tag d0 \<noteq> ''div'' \<and> startswith (el_text d0) label \<and>
       ''text-md'' \<notin> set (el_classes d1) \<and> startswith (el_text d1) label \<and>
       \<not> startswith (el_text d2) label \<and>
       el_tag d3 = ''div'' \<and> ''text-md'' \<in> set (el_classes d3) \<and>
       extract_voltage ([d0, d1, d2] @ d3 # [d4]) = Reading (Finite (461 / 2)) \<and>
       el_tag d4 = ''div'' \<and> ''text-md'' \<in> set (el_classes d4) \<and>
       extract_voltage ([] @ d4 # [d3]) = Reading (Finite 230))"
proof -
  define d0 where "d0 = \<lparr>el_tag = ''span'', el_classes = [''text-md''],
               el_text = label @ ascii '' 111.0V''\<rparr>"
  define d1 where "d1 = \<lparr>el_tag = ''div'', el_classes = [''text-lg''],
               el_text = label @ ascii '' 222.0V''\<rparr>"
  define d2 where
    "d2 = \<lparr>el_tag = ''div'', el_classes = [''text-md''], el_text = ascii ''Power: 5W''\<rparr>"
  define d3 where "d3 = \<lparr>el_tag = ''div'', el_classes = [''bold'', ''text-md''],
               el_text = label @ 32 # ascii ''230.5'' @ [86]\<rparr>"
  define d4 where "d4 = \<lparr>el_tag = ''div'', el_classes = [''text-md''],
               el_text = label @ 32 # [1634, 1635, 1632] @ [86]\<rparr>"
  have e0: "el_tag d0 \<noteq> ''div''" "startswith (el_text d0) label"
    by (simp_all add: d0_def startswith_def label_def)
  have e1: "''text-md'' \<notin> set (el_classes d1)" "startswith (el_text d1) label"
    by (simp_all add: d1_def startswith_def label_def)
  have e2: "\<not> startswith (el_text d2) label"
    by (simp add: d2_def startswith_def label_def ascii_def)
  have e3: "el_tag d3 = ''div''" "''text-md'' \<in> set (el_classes d3)"
    "el_text d3 = label @ 32 # ascii ''230.5'' @ [86]"
    by (simp_all add: d3_def)
  have e4: "el_tag d4 = ''div''" "''text-md'' \<in> set (el_classes d4)"
    "el_text d4 = label @ 32 # [1634, 1635, 1632] @ [86]"
    by (simp_all add: d4_def)
  have pre: "\<forall>e \<in> set [d0, d1, d2]. \<not> (el_tag e = ''div'' \<and>
      ''text-md'' \<in> set (el_classes e) \<and> startswith (el_text e) label)"
    using e0 e1 e2 by simp
  have nil: "\<forall>e \<in> set []. \<not> (el_tag e = ''div'' \<and>
      ''text-md'' \<in> set (el_classes e) \<and> startswith (el_text e) label)"
    by simp
  have p3: "py_float (ascii ''230.5'') = Some (Finite (461 / 2))"
    by (simp add: parse_defs round_double_230_5)
  have p4: "py_float [1634, 1635, 1632] = Some (Finite 230)"
    by (simp add: parse_defs round_double_230)
  have r3: "extract_voltage ([d0, d1, d2] @ d3 # [d4]) = Reading (Finite (461 / 2))"
    using extract_voltage_reading [OF refl e3(1) e3(2) pre e3(3), of "[d4]"] p3 by simp
  have r4: "extract_voltage ([] @ d4 # [d3]) = Reading (Finite 230)"
    using extract_voltage_reading [OF refl e4(1) e4(2) nil e4(3), of "[d3]"] p4 by simp
  from e0 e1 e2 e3 e4 r3 r4 show ?thesis
    unfolding Let_def d0_def[symmetric] d1_def[symmetric] d2_def[symmetric]
      d3_def[symmetric] d4_def[symmetric]
    by simp
qed

text \<open>
  The claim as stated, which strips the label alone, fails where the character after the
  label belongs to the number: for the text of the label followed by \<^verbatim>\<open>230V\<close> the code
  reads \<^verbatim>\<open>30.0\<close>, the specification's words \<^verbatim>\<open>230.0\<close>.
\<close>

theorem extract_voltage_counterexample:
  "extract_voltage
     [\<lparr>el_tag = ''div'', el_classes = [''text-md''], el_text = label @ ascii ''230V''\<rparr>] =
     Reading (Finite 30) \<and>
   extract_voltage_spec
     [\<lparr>el_tag = ''div'', el_classes = [''text-md''], el_text = label @ ascii ''230V''\<rparr>] =
     Reading (Finite 230)"
  by (simp add: page_defs extract_voltage_spec_def parse_defs round_double_30 round_double_230)

text \<open>
  C10. No cycle ends at the \<^verbatim>\<open>continue\<close> of line 165: a tag is never false, and a
  missing label never reaches the test. When there are candidate elements and none begins
  with the label, \<^verbatim>\<open>next\<close> raises \<^verbatim>\<open>StopIteration\<close>, the handler of line 176 catches it,
  and the cycle ends with the object, the latch included, unchanged.
\<close>

theorem label_guard_dead:
  "fst (tick s r) \<noteq> ContinueNoVoltage \<and>
   (find_all_div_text_md doc \<noteq> [] \<and>
    (\<forall>d \<in> set (find_all_div_text_md doc). \<not> startswith (el_text d) label) \<and>
    sleep (interval s) = None
      \<longrightarrow> extract_voltage doc = Raises StopIteration \<and>
          tick s (Page doc) = (Caught StopIteration, s))"
proof -
  have "extract_voltage d \<noteq> NoVoltage" for d
    by (simp add: extract_voltage_def tag_bool_def Let_def split: option.splits)
  then have "fst (tick s r) \<noteq> ContinueNoVoltage"
    by (auto simp: tick_def split: option.splits fetch_result.splits extraction.splits
        prod.splits)
  moreover have "tick s (Page doc) = (Caught StopIteration, s)"
    if "extract_voltage doc = Raises StopIteration" "sleep (interval s) = None"
    using that by (simp add: tick_def)
  ultimately show ?thesis
    using extract_voltage_no_label[of doc] by blast
qed

theorem label_guard_dead_witness:
  "(let s = snd (start_monitoring (init None (Some 1) (Some (Finite 200))));
        doc = [\<lparr>el_tag = ''div'', el_classes = [''text-md''], el_text = ascii ''Power: 5W''\<rparr>]
    in find_all_div_text_md doc \<noteq> [] \<and>
       \<not> startswith (ascii ''Power: 5W'') label \<and>
       sleep (interval s) = None \<and>
       tick s (Page doc) = (Caught StopIteration, s))"
proof -
  define s where "s = snd (start_monitoring (init None (Some 1) (Some (Finite 200))))"
  define doc where
    "doc = [\<lparr>el_tag = ''div'', el_classes = [''text-md''], el_text = ascii ''Power: 5W''\<rparr>]"
  have a: "find_all_div_text_md doc = doc"
    by (simp add: doc_def find_all_div_text_md_def)
  have b: "\<not> startswith (ascii ''Power: 5W'') label"
    by (simp add: startswith_def label_def ascii_def)
  have c: "sleep (interval s) = None"
    by (simp add: s_def start_monitoring_def init_def sleep_def)
  have d: "doc \<noteq> []" by (simp add: doc_def)
  have e: "\<forall>d \<in> set (find_all_div_text_md doc). \<not> startswith (el_text d) label"
    unfolding a using b by (simp add: doc_def)
  from label_guard_dead[of s "Page doc" doc] a b c d e show ?thesis
    unfolding Let_def s_def[symmetric] doc_def[symmetric] by simp
qed

end
